theory Spec2Isabelle
  imports Main "HOL-Library.Sublist" "HOL-Library.DAList"
begin

section \<open>Configuration\<close>

text \<open>
  Modelled from the spec: the enum \<open>CacheStorageType\<close>
  (\<open>cache-storage/types/cache-storage-type.enum.ts\<close>) is declared outside the files at
  hand; the spec gives its members as \<open>memory|redis\<close>. A configured value that is neither
  is \<open>OtherStorage\<close> with the configured text, so that the \<open>default\<close> branch of the
  factory's \<open>switch\<close> is reachable.
\<close>

datatype CacheStorageType = Memory | Redis | OtherStorage string

text \<open>
  The values \<open>EnvironmentService.get\<close> hands out, one field per key that the code reads.
  A key that may be unset is an \<open>option\<close> (\<open>None\<close> is JavaScript's \<open>undefined\<close>).
  \<open>'n\<close> is the type of a JavaScript number where the code only tests it and takes its
  text (\<open>FRONT_PORT\<close>).
\<close>

record 'n environment =
  CACHE_STORAGE_TYPE :: CacheStorageType
  CACHE_STORAGE_TTL :: int
  REDIS_URL :: "string option"
  FRONT_PORT :: "'n option"
  FRONT_DOMAIN :: "string option"
  FRONT_PROTOCOL :: "string option"
  SERVER_URL :: string
  IS_MULTIWORKSPACE_ENABLED :: bool
  DEFAULT_SUBDOMAIN :: "string option"

text \<open>JavaScript truthiness of an optional string: \<open>undefined\<close> and \<open>''\<close> are falsy.\<close>

fun truthy_string :: "string option \<Rightarrow> bool" where
  "truthy_string None = False"
| "truthy_string (Some s) = (s \<noteq> [])"

section \<open>Cache provisioning: \<open>cache-storage.module-factory.ts\<close>\<close>

datatype cache_store = redisStore

record CacheModuleOptions =
  isGlobal :: bool
  ttl :: int
  store :: "cache_store option"
  socket_connectionString :: "string option"

datatype factory_error =
    RedisUrlRequired
  | InvalidCacheStorage CacheStorageType

definition cacheStorageModuleFactory :: "'n environment \<Rightarrow> factory_error + CacheModuleOptions" where
  "cacheStorageModuleFactory environmentService =
     (let cacheStorageType = CACHE_STORAGE_TYPE environmentService;
          cacheStorageTtl = CACHE_STORAGE_TTL environmentService;
          cacheModuleOptions =
            \<lparr>isGlobal = True, ttl = cacheStorageTtl * 1000,
             store = None, socket_connectionString = None\<rparr>
      in case cacheStorageType of
           Memory \<Rightarrow> Inr cacheModuleOptions
         | Redis \<Rightarrow>
             (let connectionString = REDIS_URL environmentService
              in if \<not> truthy_string connectionString then Inl RedisUrlRequired
                 else Inr (cacheModuleOptions
                             \<lparr>store := Some redisStore,
                              socket_connectionString := connectionString\<rparr>))
         | OtherStorage v \<Rightarrow> Inl (InvalidCacheStorage cacheStorageType))"

section \<open>Custom-domain validation records\<close>

text \<open>
  Modelled from the spec: the DTO \<open>CustomDomainValidRecords\<close> is declared outside the
  files at hand; the spec describes it as \<open>{records:[{status}]}\<close>, an ordered sequence of
  per-record outcomes, each carrying a status.
\<close>

record validation_record =
  status :: string

record CustomDomainValidRecords =
  records :: "validation_record list"

definition isCustomDomainWorking :: "CustomDomainValidRecords \<Rightarrow> bool" where
  "isCustomDomainWorking customDomainDetails =
     list_all (\<lambda>r. status r = ''success'') (records customDomainDetails)"

section \<open>The platform's URL class\<close>

text \<open>
  The service uses the host platform's \<open>URL\<close> class. A URL object is a record of its
  components; \<open>protocol\<close> holds the scheme, \<open>searchParams\<close> the name-value pairs in
  order.

  The class is not code of this repository. Its constructor \<open>new URL(s)\<close>, its
  serialiser \<open>url.toString()\<close> and its component setters (\<open>url.hostname = x\<close> and the
  like) are parameters of every function that calls them, and so are the two things the
  code does with a JavaScript number of type \<open>'n\<close>: taking its text and testing its
  truthiness. \<open>newURL\<close> gives \<open>None\<close> where the constructor throws a \<open>TypeError\<close>. A
  setter takes the URL and the assigned text and gives the URL after the assignment:
  the platform is free to normalise the text or to ignore it.
\<close>

record URL =
  protocol :: string
  hostname :: string
  port :: string
  pathname :: string
  searchParams :: "(string \<times> string) list"

record 'n url_platform =
  newURL :: "string \<Rightarrow> URL option"
  toString :: "URL \<Rightarrow> string"
  set_hostname :: "URL \<Rightarrow> string \<Rightarrow> URL"
  set_port :: "URL \<Rightarrow> string \<Rightarrow> URL"
  set_protocol :: "URL \<Rightarrow> string \<Rightarrow> URL"
  set_pathname :: "URL \<Rightarrow> string \<Rightarrow> URL"
  number_toString :: "'n \<Rightarrow> string"
  number_truthy :: "'n \<Rightarrow> bool"

text \<open>\<open>URLSearchParams.set\<close>: overwrite the first pair of that name and drop the others,
  or append a new pair.\<close>

fun searchParams_set :: "(string \<times> string) list \<Rightarrow> string \<Rightarrow> string \<Rightarrow> (string \<times> string) list" where
  "searchParams_set [] k v = [(k, v)]"
| "searchParams_set ((k', v') # ps) k v =
     (if k' = k then (k, v) # filter (\<lambda>p. fst p \<noteq> k) ps
      else (k', v') # searchParams_set ps k v)"

section \<open>Strings and numbers of the platform\<close>

text \<open>\<open>String.prototype.endsWith\<close>.\<close>

definition endsWith :: "string \<Rightarrow> string \<Rightarrow> bool" where
  "endsWith s searchString = suffix searchString s"

text \<open>
  \<open>String.prototype.replace\<close> with a string pattern: only the first occurrence of the
  pattern, scanning from the left, is replaced. (The replacement is always the empty
  string in the code, so the \<open>$\<close> patterns of a replacement string do not arise.)
\<close>

fun replace :: "string \<Rightarrow> string \<Rightarrow> string \<Rightarrow> string" where
  "replace [] pattern replacement = (if pattern = [] then replacement else [])"
| "replace (c # cs) pattern replacement =
     (if prefix pattern (c # cs) then replacement @ drop (length pattern) (c # cs)
      else c # replace cs pattern replacement)"

text \<open>Decimal text of a whole number: the text of an array length inside a template
  literal.\<close>

definition digit_char :: "nat \<Rightarrow> char" where
  "digit_char d = char_of (of_char (CHR ''0'') + d)"

fun string_of_nat :: "nat \<Rightarrow> string" where
  "string_of_nat n =
     (if 10 \<le> n then string_of_nat (n div 10) @ [digit_char (n mod 10)]
      else [digit_char n])"

declare string_of_nat.simps [simp del]

text \<open>An optional string inside a template literal: \<open>undefined\<close> prints as its name.\<close>

fun template :: "string option \<Rightarrow> string" where
  "template None = ''undefined''"
| "template (Some s) = s"

text \<open>Truthiness of an optional number: \<open>undefined\<close> is falsy, a number is what the
  runtime says.\<close>

fun truthy_number :: "'n url_platform \<Rightarrow> 'n option \<Rightarrow> bool" where
  "truthy_number P None = False"
| "truthy_number P (Some n) = number_truthy P n"

section \<open>Domain resolution: \<open>DomainManagerService\<close>\<close>

text \<open>
  Modelled from the spec: the entity \<open>Workspace\<close> (\<open>workspace/workspace.entity.ts\<close>) is
  declared outside the files at hand. The spec gives \<open>subdomain\<close>, \<open>customDomain\<close> (string
  or absent) and \<open>isCustomDomainEnabled\<close>; the service orders by \<open>createdAt\<close>; the store is
  keyed by tenant identity, here \<open>workspace_id\<close>.
\<close>

record Workspace =
  workspace_id :: nat
  subdomain :: string
  customDomain :: "string option"
  isCustomDomainEnabled :: bool
  createdAt :: int

text \<open>
  The workspace repository is the list of its rows. \<open>findOne({where})\<close> is the first row
  that matches; \<open>find({order: {createdAt: 'DESC'}})\<close> is the rows sorted by falling
  \<open>createdAt\<close> (rows of equal \<open>createdAt\<close> stay in store order; the database leaves
  their order open).
\<close>

type_synonym repository = "Workspace list"

definition find_order_createdAt_DESC :: "repository \<Rightarrow> Workspace list" where
  "find_order_createdAt_DESC repo = sort_key (\<lambda>w. - createdAt w) repo"

datatype service_error =
    TypeError_InvalidURL
  | DefaultWorkspaceNotExist

definition getFrontUrl :: "'n url_platform \<Rightarrow> 'n environment \<Rightarrow> URL option" where
  "getFrontUrl P env =
     (let frontPort = FRONT_PORT env;
          frontDomain = FRONT_DOMAIN env;
          frontProtocol = FRONT_PROTOCOL env;
          serverUrl = SERVER_URL env
      in case (if \<not> truthy_string frontDomain then newURL P serverUrl
               else newURL P (template frontProtocol @ ''://'' @ template frontDomain)) of
           None \<Rightarrow> None
         | Some baseUrl \<Rightarrow>
             (let baseUrl1 = (if truthy_number P frontPort
                              then set_port P baseUrl (number_toString P (the frontPort))
                              else baseUrl);
                  baseUrl2 = (if truthy_string frontProtocol
                              then set_protocol P baseUrl1 (the frontProtocol)
                              else baseUrl1)
              in Some baseUrl2))"

definition isDefaultSubdomain :: "'n environment \<Rightarrow> string \<Rightarrow> bool" where
  "isDefaultSubdomain env subdomain' = (Some subdomain' = DEFAULT_SUBDOMAIN env)"

text \<open>The object that \<open>getSubdomainAndCustomDomainFromUrl\<close> returns: \<open>key_subdomain\<close> is
  its \<open>subdomain\<close> (\<open>None\<close> for \<open>undefined\<close>), \<open>key_customDomain\<close> its \<open>customDomain\<close>
  (\<open>None\<close> for \<open>null\<close>).\<close>

record SubdomainAndCustomDomain =
  key_subdomain :: "string option"
  key_customDomain :: "string option"

definition getSubdomainAndCustomDomainFromUrl ::
    "'n url_platform \<Rightarrow> 'n environment \<Rightarrow> string
       \<Rightarrow> service_error + SubdomainAndCustomDomain" where
  "getSubdomainAndCustomDomainFromUrl P env url =
     (case newURL P url of
        None \<Rightarrow> Inl TypeError_InvalidURL
      | Some parsed \<Rightarrow>
          (let originHostname = hostname parsed
           in case getFrontUrl P env of
                None \<Rightarrow> Inl TypeError_InvalidURL
              | Some front \<Rightarrow>
                  (let frontDomain = hostname front;
                       isFrontdomain = endsWith originHostname (''.'' @ frontDomain);
                       subdomain' = replace originHostname (''.'' @ frontDomain) []
                   in Inr \<lparr>key_subdomain =
                             (if isFrontdomain \<and> \<not> isDefaultSubdomain env subdomain'
                              then Some subdomain' else None),
                           key_customDomain =
                             (if isFrontdomain then None else Some originHostname)\<rparr>)))"

text \<open>\<open>Logger.warn\<close> is modelled by the list of messages logged, returned with the value.\<close>

definition single_workspace_warning :: "nat \<Rightarrow> string" where
  "single_workspace_warning n =
     ''In single-workspace mode, there should be only one workspace. Today there are ''
       @ string_of_nat n @ '' workspaces''"

definition getDefaultWorkspace ::
    "'n environment \<Rightarrow> repository \<Rightarrow> service_error + (string list \<times> Workspace option)" where
  "getDefaultWorkspace env repo =
     (if \<not> IS_MULTIWORKSPACE_ENABLED env then
        (let defaultWorkspaceSubDomain = DEFAULT_SUBDOMAIN env;
             foundWorkspaceForDefaultSubDomain =
               (case defaultWorkspaceSubDomain of
                  None \<Rightarrow> None
                | Some d \<Rightarrow> find (\<lambda>w. subdomain w = d) repo)
         in case foundWorkspaceForDefaultSubDomain of
              Some found \<Rightarrow> Inr ([], Some found)
            | None \<Rightarrow>
                (let workspaces = find_order_createdAt_DESC repo
                 in Inr (if length workspaces > 1
                         then [single_workspace_warning (length workspaces)] else [],
                         case workspaces of [] \<Rightarrow> None | w # _ \<Rightarrow> Some w)))
      else Inl DefaultWorkspaceNotExist)"

definition getWorkspaceByOriginOrDefaultWorkspace ::
    "'n url_platform \<Rightarrow> 'n environment \<Rightarrow> repository \<Rightarrow> string
       \<Rightarrow> service_error + (string list \<times> Workspace option)" where
  "getWorkspaceByOriginOrDefaultWorkspace P env repo origin =
     (if \<not> IS_MULTIWORKSPACE_ENABLED env then getDefaultWorkspace env repo
      else case getSubdomainAndCustomDomainFromUrl P env origin of
             Inl err \<Rightarrow> Inl err
           | Inr key \<Rightarrow>
               (if \<not> truthy_string (key_customDomain key) \<and> \<not> truthy_string (key_subdomain key)
                then Inr ([], None)
                else if key_customDomain key \<noteq> None
                then Inr ([], find (\<lambda>w. customDomain w = key_customDomain key) repo)
                else Inr ([], find (\<lambda>w. Some (subdomain w) = key_subdomain key) repo)))"

definition getCustomWorkspaceUrl ::
    "'n url_platform \<Rightarrow> 'n environment \<Rightarrow> string \<Rightarrow> service_error + string" where
  "getCustomWorkspaceUrl P env customDomain' =
     (case getFrontUrl P env of
        None \<Rightarrow> Inl TypeError_InvalidURL
      | Some url \<Rightarrow> Inr (toString P (set_hostname P url customDomain')))"

definition getTwentyWorkspaceUrl ::
    "'n url_platform \<Rightarrow> 'n environment \<Rightarrow> string \<Rightarrow> service_error + string" where
  "getTwentyWorkspaceUrl P env subdomain' =
     (case getFrontUrl P env of
        None \<Rightarrow> Inl TypeError_InvalidURL
      | Some url \<Rightarrow> Inr (toString P (set_hostname P url (subdomain' @ ''.'' @ hostname url))))"

record WorkspaceUrls =
  customUrl :: "string option"
  subdomainUrl :: string

definition getWorkspaceUrls ::
    "'n url_platform \<Rightarrow> 'n environment \<Rightarrow> Workspace \<Rightarrow> service_error + WorkspaceUrls" where
  "getWorkspaceUrls P env workspace =
     (case (if isCustomDomainEnabled workspace \<and> truthy_string (customDomain workspace)
            then map_sum id Some (getCustomWorkspaceUrl P env (the (customDomain workspace)))
            else Inr None) of
        Inl err \<Rightarrow> Inl err
      | Inr customUrl' \<Rightarrow>
          (case getTwentyWorkspaceUrl P env (subdomain workspace) of
             Inl err \<Rightarrow> Inl err
           | Inr subdomainUrl' \<Rightarrow>
               Inr \<lparr>customUrl = customUrl', subdomainUrl = subdomainUrl'\<rparr>))"

text \<open>
  A search-parameter value is a string or a number; \<open>value.toString()\<close> of a number is
  the runtime's. The parameters are an object: its entries, in the order
  \<open>Object.entries\<close> gives them, are a list of pairs with distinct names. \<open>None\<close> as the
  value of an entry is a value that \<open>isDefined\<close> rejects (\<open>undefined\<close> or \<open>null\<close>).
\<close>

datatype 'n search_value = StringValue string | NumberValue 'n

fun value_toString :: "'n url_platform \<Rightarrow> 'n search_value \<Rightarrow> string" where
  "value_toString P (StringValue s) = s"
| "value_toString P (NumberValue n) = number_toString P n"

definition set_search_param ::
    "'n url_platform \<Rightarrow> URL \<Rightarrow> string \<times> 'n search_value option \<Rightarrow> URL" where
  "set_search_param P url entry =
     (case snd entry of
        None \<Rightarrow> url
      | Some v \<Rightarrow>
          url \<lparr>searchParams :=
                 searchParams_set (searchParams url) (fst entry) (value_toString P v)\<rparr>)"

definition buildWorkspaceURL ::
    "'n url_platform \<Rightarrow> 'n environment \<Rightarrow> Workspace \<Rightarrow> string option
       \<Rightarrow> (string, 'n search_value option) alist option \<Rightarrow> service_error + URL" where
  "buildWorkspaceURL P env workspace pathname' searchParams' =
     (case getWorkspaceUrls P env workspace of
        Inl err \<Rightarrow> Inl err
      | Inr workspaceUrls \<Rightarrow>
          (case newURL P (case customUrl workspaceUrls of
                            Some c \<Rightarrow> c
                          | None \<Rightarrow> subdomainUrl workspaceUrls) of
             None \<Rightarrow> Inl TypeError_InvalidURL
           | Some url \<Rightarrow>
               (let url1 = (if truthy_string pathname'
                            then set_pathname P url (the pathname') else url);
                    url2 = (case searchParams' of
                              None \<Rightarrow> url1
                            | Some entries \<Rightarrow>
                                foldl (set_search_param P) url1 (DAList.impl_of entries))
                in Inr url2)))"

section \<open>Custom-domain reconciliation: the webhook handler\<close>

text \<open>
  What a call of the handler does to its collaborators, in order: a tenant lookup by
  custom domain, a validation lookup, a store write, a report to the exception tracker.
\<close>

datatype collaborator_call =
    FindOneBy_customDomain string
  | GetCustomDomainDetails string
  | Save Workspace
  | CaptureException

datatype response_status = Status_200 | Authentication_Failure

record webhook_request =
  cf_webhook_auth :: "string option"
  payload_hostname :: "string option"

record webhook_outcome =
  response :: response_status
  calls :: "collaborator_call list"
  repository_after :: repository

text \<open>\<open>save\<close> writes a row in place, by tenant identity; a row of a new identity is added.\<close>

definition save :: "repository \<Rightarrow> Workspace \<Rightarrow> repository" where
  "save repo w =
     (if \<exists>x \<in> set repo. workspace_id x = workspace_id w
      then map (\<lambda>x. if workspace_id x = workspace_id w then w else x) repo
      else repo @ [w])"

definition findOneBy_customDomain :: "repository \<Rightarrow> string \<Rightarrow> Workspace option" where
  "findOneBy_customDomain repo h = find (\<lambda>w. customDomain w = Some h) repo"

definition is_write :: "collaborator_call \<Rightarrow> bool" where
  "is_write c = (case c of Save w \<Rightarrow> True | _ \<Rightarrow> False)"

text \<open>
  Modelled from the spec: the handler \<open>CloudflareController.customHostnameWebhooks\<close>
  (\<open>domain-manager/controllers/cloudflare.controller.ts\<close>) is outside the files at hand;
  only its tests are there. The definition follows the seven steps of the spec's
  section 4.2. \<open>secret\<close> is the configured shared secret; \<open>getCustomDomainDetails\<close> is the
  validation collaborator, which raises (\<open>Inl\<close>), returns none (\<open>Inr None\<close>) or returns
  the records.
\<close>

definition customHostnameWebhooks ::
    "string \<Rightarrow> (string \<Rightarrow> unit + CustomDomainValidRecords option) \<Rightarrow> repository
       \<Rightarrow> webhook_request \<Rightarrow> webhook_outcome" where
  "customHostnameWebhooks secret getCustomDomainDetails repo req =
     (if cf_webhook_auth req \<noteq> Some secret
      then \<lparr>response = Authentication_Failure, calls = [], repository_after = repo\<rparr>
      else case payload_hostname req of
        None \<Rightarrow> \<lparr>response = Status_200, calls = [], repository_after = repo\<rparr>
      | Some h \<Rightarrow>
          (case findOneBy_customDomain repo h of
             None \<Rightarrow>
               \<lparr>response = Status_200, calls = [FindOneBy_customDomain h],
                repository_after = repo\<rparr>
           | Some tenant \<Rightarrow>
               (case getCustomDomainDetails h of
                  Inl raised \<Rightarrow>
                    \<lparr>response = Status_200,
                     calls = [FindOneBy_customDomain h, GetCustomDomainDetails h, CaptureException],
                     repository_after = repo\<rparr>
                | Inr None \<Rightarrow>
                    (if customDomain tenant = Some h
                     then (let cleared = tenant \<lparr>customDomain := None,
                                                 isCustomDomainEnabled := False\<rparr>
                           in \<lparr>response = Status_200,
                               calls = [FindOneBy_customDomain h, GetCustomDomainDetails h,
                                        Save cleared],
                               repository_after = save repo cleared\<rparr>)
                     else \<lparr>response = Status_200,
                           calls = [FindOneBy_customDomain h, GetCustomDomainDetails h],
                           repository_after = repo\<rparr>)
                | Inr (Some details) \<Rightarrow>
                    (let working = isCustomDomainWorking details
                     in if working \<noteq> isCustomDomainEnabled tenant
                        then (let updated = tenant \<lparr>customDomain := Some h,
                                                    isCustomDomainEnabled := working\<rparr>
                              in \<lparr>response = Status_200,
                                  calls = [FindOneBy_customDomain h, GetCustomDomainDetails h,
                                           Save updated],
                                  repository_after = save repo updated\<rparr>)
                        else \<lparr>response = Status_200,
                              calls = [FindOneBy_customDomain h, GetCustomDomainDetails h],
                              repository_after = repo\<rparr>))))"

section \<open>The spec's words\<close>

text \<open>The leading label of a hostname, in the spec's words: the text before its first dot.\<close>

definition spec_leading_label :: "string \<Rightarrow> string" where
  "spec_leading_label h = takeWhile (\<lambda>c. c \<noteq> CHR ''.'') h"

text \<open>The search parameters that are defined, in the spec's words: each defined value, as
  text, in the order given; an undefined value is skipped.\<close>

fun spec_defined_entries ::
    "'n url_platform \<Rightarrow> (string \<times> 'n search_value option) list \<Rightarrow> (string \<times> string) list" where
  "spec_defined_entries P [] = []"
| "spec_defined_entries P ((k, None) # es) = spec_defined_entries P es"
| "spec_defined_entries P ((k, Some v) # es) =
     (k, value_toString P v) # spec_defined_entries P es"

section \<open>Concrete inputs\<close>

text \<open>
  A small platform for concrete inputs. Its URLs have the form
  \<open>scheme://host[:port][/path]\<close>; it lower-cases scheme and host, drops the default port
  of \<open>http\<close> and \<open>https\<close>, ignores an assigned host, port or scheme that is not
  well-formed, and starts an assigned path with a slash. Its numbers are the integers,
  printed in decimal.
\<close>

definition ascii_lower :: "char \<Rightarrow> char" where
  "ascii_lower c =
     (if (65::nat) \<le> of_char c \<and> of_char c \<le> (90::nat) then char_of (of_char c + (32::nat))
      else c)"

definition default_port :: "string \<Rightarrow> string" where
  "default_port scheme =
     (if scheme = ''http'' then ''80'' else if scheme = ''https'' then ''443'' else [])"

definition is_digit :: "char \<Rightarrow> bool" where
  "is_digit c = ((48::nat) \<le> of_char c \<and> of_char c \<le> (57::nat))"

definition nat_of_digits :: "string \<Rightarrow> nat" where
  "nat_of_digits ds = foldl (\<lambda>n c. 10 * n + (of_char c - 48)) 0 ds"

definition string_of_int :: "int \<Rightarrow> string" where
  "string_of_int i =
     (if i < 0 then CHR ''-'' # string_of_nat (nat (- i)) else string_of_nat (nat i))"

definition simple_newURL :: "string \<Rightarrow> URL option" where
  "simple_newURL s =
     (let scheme = map ascii_lower (takeWhile (\<lambda>c. c \<noteq> CHR '':'') s);
          rest = drop (length scheme) s
      in if scheme = [] \<or> \<not> prefix ''://'' rest then None
         else (let afterSlashes = drop 3 rest;
                   authority = takeWhile (\<lambda>c. c \<noteq> CHR ''/'') afterSlashes;
                   path = dropWhile (\<lambda>c. c \<noteq> CHR ''/'') afterSlashes;
                   host = map ascii_lower (takeWhile (\<lambda>c. c \<noteq> CHR '':'') authority);
                   portText = drop (Suc (length host)) authority
               in if host = [] \<or> \<not> list_all is_digit portText then None
                  else Some \<lparr>protocol = scheme, hostname = host,
                             port = (if portText = default_port scheme then [] else portText),
                             pathname = (if path = [] then ''/'' else path),
                             searchParams = []\<rparr>))"

definition simple_toString :: "URL \<Rightarrow> string" where
  "simple_toString u =
     protocol u @ ''://'' @ hostname u @ (if port u = [] then [] else '':'' @ port u)
       @ pathname u
       @ (if searchParams u = [] then []
          else CHR ''?'' # concat (map (\<lambda>(k, v). k @ ''='' @ v @ ''&'') (searchParams u)))"

definition simple_set_hostname :: "URL \<Rightarrow> string \<Rightarrow> URL" where
  "simple_set_hostname u h =
     (if h = [] \<or> (\<exists>c \<in> set h. c \<in> set ''/:?#@ '') then u
      else u \<lparr>hostname := map ascii_lower h\<rparr>)"

definition simple_set_port :: "URL \<Rightarrow> string \<Rightarrow> URL" where
  "simple_set_port u p =
     (if p = [] then u \<lparr>port := []\<rparr>
      else if list_all is_digit p \<and> nat_of_digits p \<le> 65535
      then u \<lparr>port := (if string_of_nat (nat_of_digits p) = default_port (protocol u) then []
                       else string_of_nat (nat_of_digits p))\<rparr>
      else u)"

definition simple_set_protocol :: "URL \<Rightarrow> string \<Rightarrow> URL" where
  "simple_set_protocol u p =
     (let scheme = map ascii_lower (takeWhile (\<lambda>c. c \<noteq> CHR '':'') p)
      in if default_port scheme \<noteq> [] \<and> default_port (protocol u) \<noteq> []
         then u \<lparr>protocol := scheme,
                 port := (if port u = default_port scheme then [] else port u)\<rparr>
         else u)"

definition simple_set_pathname :: "URL \<Rightarrow> string \<Rightarrow> URL" where
  "simple_set_pathname u p = u \<lparr>pathname := (if prefix ''/'' p then p else CHR ''/'' # p)\<rparr>"

definition simple_platform :: "int url_platform" where
  "simple_platform =
     \<lparr>newURL = simple_newURL, toString = simple_toString,
      set_hostname = simple_set_hostname, set_port = simple_set_port,
      set_protocol = simple_set_protocol, set_pathname = simple_set_pathname,
      number_toString = string_of_int, number_truthy = (\<lambda>i. i \<noteq> 0)\<rparr>"

text \<open>Configurations, workspaces and requests used as concrete inputs below.\<close>

definition env_memory :: "int environment" where
  "env_memory =
     \<lparr>CACHE_STORAGE_TYPE = Memory, CACHE_STORAGE_TTL = 60, REDIS_URL = None,
      FRONT_PORT = None, FRONT_DOMAIN = Some ''twenty.com'', FRONT_PROTOCOL = Some ''https'',
      SERVER_URL = ''http://localhost:3000'', IS_MULTIWORKSPACE_ENABLED = True,
      DEFAULT_SUBDOMAIN = Some ''app''\<rparr>"

definition env_redis :: "string option \<Rightarrow> int environment" where
  "env_redis url = env_memory \<lparr>CACHE_STORAGE_TYPE := Redis, REDIS_URL := url\<rparr>"

definition env_single :: "int environment" where
  "env_single = env_memory \<lparr>IS_MULTIWORKSPACE_ENABLED := False\<rparr>"

definition ws_old :: Workspace where
  "ws_old = \<lparr>workspace_id = 1, subdomain = ''acme'', customDomain = None,
             isCustomDomainEnabled = False, createdAt = 100\<rparr>"

definition ws_new :: Workspace where
  "ws_new = \<lparr>workspace_id = 2, subdomain = ''globex'', customDomain = Some ''crm.globex.com'',
             isCustomDomainEnabled = True, createdAt = 200\<rparr>"

definition ws_app :: Workspace where
  "ws_app = \<lparr>workspace_id = 3, subdomain = ''app'', customDomain = None,
             isCustomDomainEnabled = False, createdAt = 50\<rparr>"

definition ws_example :: Workspace where
  "ws_example = \<lparr>workspace_id = 7, subdomain = ''example'', customDomain = Some ''example.com'',
                 isCustomDomainEnabled = False, createdAt = 300\<rparr>"

definition ws_notfound :: Workspace where
  "ws_notfound = \<lparr>workspace_id = 8, subdomain = ''gone'', customDomain = Some ''notfound.com'',
                  isCustomDomainEnabled = True, createdAt = 400\<rparr>"

definition records_success :: CustomDomainValidRecords where
  "records_success = \<lparr>records = [\<lparr>status = ''success''\<rparr>]\<rparr>"

definition request_for :: "string \<Rightarrow> string option \<Rightarrow> webhook_request" where
  "request_for auth h = \<lparr>cf_webhook_auth = Some auth, payload_hostname = h\<rparr>"

section \<open>The decimal printer on examples\<close>

lemma string_of_nat_examples:
  "string_of_nat 0 = ''0''" "string_of_nat 7 = ''7''" "string_of_nat 443 = ''443''"
  "string_of_int (- 15) = ''-15''"
  by code_simp+

section \<open>Properties of the cache factory\<close>

lemma factory_memory:
  "CACHE_STORAGE_TYPE e = Memory \<Longrightarrow>
   cacheStorageModuleFactory e =
     Inr \<lparr>isGlobal = True, ttl = CACHE_STORAGE_TTL e * 1000,
          store = None, socket_connectionString = None\<rparr>"
  by (simp add: cacheStorageModuleFactory_def)

lemma factory_redis:
  "CACHE_STORAGE_TYPE e = Redis \<Longrightarrow> REDIS_URL e = Some c \<Longrightarrow> c \<noteq> [] \<Longrightarrow>
   cacheStorageModuleFactory e =
     Inr \<lparr>isGlobal = True, ttl = CACHE_STORAGE_TTL e * 1000,
          store = Some redisStore, socket_connectionString = Some c\<rparr>"
  by (simp add: cacheStorageModuleFactory_def)

lemma factory_throws_iff:
  "isl (cacheStorageModuleFactory e) \<longleftrightarrow>
     (CACHE_STORAGE_TYPE e = Redis \<and> \<not> truthy_string (REDIS_URL e))
     \<or> (CACHE_STORAGE_TYPE e \<noteq> Memory \<and> CACHE_STORAGE_TYPE e \<noteq> Redis)"
  by (cases "CACHE_STORAGE_TYPE e") (simp_all add: cacheStorageModuleFactory_def Let_def)

text \<open>
  C9 (as the code has it). A thrown error is the \<open>Inl\<close> side of the result. The factory
  throws exactly when the type is Redis and \<open>REDIS_URL\<close> is falsy, that is unset or the
  empty string, or when the type is neither Memory nor Redis. For Memory it returns the
  options without a store; for Redis with a non-empty connection string it returns the
  options carrying the redis store and that string.
\<close>

theorem cacheStorageModuleFactory_throws_iff_falsy:
  "(isl (cacheStorageModuleFactory e) \<longleftrightarrow>
      (CACHE_STORAGE_TYPE e = Redis \<and> (REDIS_URL e = None \<or> REDIS_URL e = Some []))
      \<or> (CACHE_STORAGE_TYPE e \<noteq> Memory \<and> CACHE_STORAGE_TYPE e \<noteq> Redis))
   \<and> (CACHE_STORAGE_TYPE e = Memory \<longrightarrow>
        cacheStorageModuleFactory e =
          Inr \<lparr>isGlobal = True, ttl = CACHE_STORAGE_TTL e * 1000,
               store = None, socket_connectionString = None\<rparr>)
   \<and> (\<forall>c. CACHE_STORAGE_TYPE e = Redis \<and> REDIS_URL e = Some c \<and> c \<noteq> [] \<longrightarrow>
        cacheStorageModuleFactory e =
          Inr \<lparr>isGlobal = True, ttl = CACHE_STORAGE_TTL e * 1000,
               store = Some redisStore, socket_connectionString = Some c\<rparr>)"
proof -
  have falsy: "\<not> truthy_string (REDIS_URL e) \<longleftrightarrow> REDIS_URL e = None \<or> REDIS_URL e = Some []"
    by (cases "REDIS_URL e") simp_all
  show ?thesis
    using factory_throws_iff [of e] factory_memory [of e] factory_redis [of e]
    by (simp add: falsy)
qed

theorem cacheStorageModuleFactory_throws_iff_falsy_witness:
  "CACHE_STORAGE_TYPE env_memory = Memory
   \<and> cacheStorageModuleFactory env_memory =
       Inr \<lparr>isGlobal = True, ttl = 60000, store = None, socket_connectionString = None\<rparr>
   \<and> CACHE_STORAGE_TYPE (env_redis (Some ''redis://localhost:6379'')) = Redis
   \<and> REDIS_URL (env_redis (Some ''redis://localhost:6379'')) = Some ''redis://localhost:6379''
   \<and> ''redis://localhost:6379'' \<noteq> []
   \<and> cacheStorageModuleFactory (env_redis (Some ''redis://localhost:6379'')) =
       Inr \<lparr>isGlobal = True, ttl = 60000, store = Some redisStore,
            socket_connectionString = Some ''redis://localhost:6379''\<rparr>
   \<and> isl (cacheStorageModuleFactory (env_redis None))"
  using cacheStorageModuleFactory_throws_iff_falsy [of env_memory]
        cacheStorageModuleFactory_throws_iff_falsy [of "env_redis (Some ''redis://localhost:6379'')"]
        cacheStorageModuleFactory_throws_iff_falsy [of "env_redis None"]
  by (simp add: env_memory_def env_redis_def)

text \<open>
  C9 (as the spec words it, with "absent" read as unset) fails on an empty \<open>REDIS_URL\<close>:
  the key is set, the type is Redis, and the factory throws all the same.
\<close>

theorem cacheStorageModuleFactory_empty_url_counterexample:
  "\<not> (isl (cacheStorageModuleFactory (env_redis (Some []))) \<longleftrightarrow>
        (CACHE_STORAGE_TYPE (env_redis (Some [])) = Redis \<and> REDIS_URL (env_redis (Some [])) = None)
        \<or> (CACHE_STORAGE_TYPE (env_redis (Some [])) \<noteq> Memory
            \<and> CACHE_STORAGE_TYPE (env_redis (Some [])) \<noteq> Redis))"
  by (simp add: cacheStorageModuleFactory_def env_redis_def env_memory_def)

section \<open>Properties of the validation check\<close>

text \<open>
  C10. A validation result whose records list is empty counts as working: the check
  that every record succeeded holds vacuously.
\<close>

theorem isCustomDomainWorking_empty:
  "records d = [] \<Longrightarrow> isCustomDomainWorking d"
  by (simp add: isCustomDomainWorking_def)

theorem isCustomDomainWorking_empty_witness:
  "records \<lparr>records = []\<rparr> = [] \<and> isCustomDomainWorking \<lparr>records = []\<rparr>"
  using isCustomDomainWorking_empty [of "\<lparr>records = []\<rparr>"] by simp

section \<open>Properties of \<open>replace\<close> and of the leading label\<close>

lemma prefix_longer_sublist_butlast:
  assumes "prefix pat (c # cs @ pat)"
  shows "sublist pat (butlast (c # cs @ pat))"
proof -
  from assms obtain ss where ss: "c # cs @ pat = pat @ ss"
    by (auto simp: prefix_def)
  then have "length (c # cs @ pat) = length (pat @ ss)" by simp
  then have "ss \<noteq> []" by auto
  then have "butlast (pat @ ss) = pat @ butlast ss" by (simp add: butlast_append)
  with ss have "butlast (c # cs @ pat) = pat @ butlast ss" by simp
  then show ?thesis by (simp only: sublist_append_rightI)
qed

text \<open>Where the pattern occurs in \<open>p @ pat\<close> only at the very end, replacing its first
  occurrence strips the suffix.\<close>

lemma replace_first_is_suffix:
  "pat \<noteq> [] \<Longrightarrow> \<not> sublist pat (butlast (p @ pat)) \<Longrightarrow> replace (p @ pat) pat r = p @ r"
proof (induction p)
  case Nil
  then show ?case by (cases pat) auto
next
  case (Cons c cs)
  have np: "\<not> prefix pat (c # cs @ pat)"
    using Cons.prems(2) prefix_longer_sublist_butlast [of pat c cs] by auto
  have bl: "butlast ((c # cs) @ pat) = c # butlast (cs @ pat)"
    using Cons.prems(1) by simp
  have "\<not> sublist pat (butlast (cs @ pat))"
    using Cons.prems(2) unfolding bl by (simp add: sublist_Cons_right)
  with Cons.IH Cons.prems(1) have "replace (cs @ pat) pat r = cs @ r" by simp
  with np show ?case by simp
qed

lemma no_dot_not_sublist:
  "CHR ''.'' \<notin> set p \<Longrightarrow> \<not> sublist (CHR ''.'' # d) (butlast (p @ CHR ''.'' # d))"
proof (induction p)
  case Nil
  have "length (butlast (CHR ''.'' # d)) < length (CHR ''.'' # d)" by simp
  then show ?case
    using sublist_length_le [of "CHR ''.'' # d" "butlast (CHR ''.'' # d)"] by auto
next
  case (Cons c cs)
  then show ?case by (auto simp: sublist_Cons_right)
qed

lemma leading_label_no_dot:
  "CHR ''.'' \<notin> set p \<Longrightarrow> spec_leading_label (p @ CHR ''.'' # d) = p"
  by (induction p) (auto simp: spec_leading_label_def)

section \<open>Properties of \<open>getSubdomainAndCustomDomainFromUrl\<close>\<close>

lemma front_memory:
  "getFrontUrl simple_platform env_memory =
     Some \<lparr>protocol = ''https'', hostname = ''twenty.com'', port = [], pathname = ''/'',
           searchParams = []\<rparr>"
  by (simp add: getFrontUrl_def simple_platform_def simple_newURL_def env_memory_def
        simple_set_protocol_def default_port_def ascii_lower_def)

lemma default_memory: "DEFAULT_SUBDOMAIN env_memory = Some ''app''"
  by (simp add: env_memory_def)

lemma parse_simple:
  "newURL simple_platform ''https://a.b.twenty.com'' =
     Some \<lparr>protocol = ''https'', hostname = ''a.b.twenty.com'', port = [], pathname = ''/'',
           searchParams = []\<rparr>"
  "newURL simple_platform ''https://crm.acme.org:8080/x'' =
     Some \<lparr>protocol = ''https'', hostname = ''crm.acme.org'', port = ''8080'',
           pathname = ''/x'', searchParams = []\<rparr>"
  "newURL simple_platform ''https://acme.twenty.com/welcome'' =
     Some \<lparr>protocol = ''https'', hostname = ''acme.twenty.com'', port = [],
           pathname = ''/welcome'', searchParams = []\<rparr>"
  by (simp_all add: simple_platform_def simple_newURL_def default_port_def ascii_lower_def
        is_digit_def)

lemma key_front_domain:
  assumes "newURL P url = Some parsed" and "getFrontUrl P env = Some front"
      and "hostname parsed = p @ CHR ''.'' # hostname front"
      and "\<not> sublist (CHR ''.'' # hostname front) (butlast (hostname parsed))"
  shows "getSubdomainAndCustomDomainFromUrl P env url =
           Inr \<lparr>key_subdomain = (if Some p = DEFAULT_SUBDOMAIN env then None else Some p),
                key_customDomain = None\<rparr>"
proof -
  have "replace (hostname parsed) (CHR ''.'' # hostname front) [] = p"
    using replace_first_is_suffix [of "CHR ''.'' # hostname front" p "[]"] assms(3,4) by simp
  moreover have "suffix (CHR ''.'' # hostname front) (hostname parsed)"
    using assms(3) by (simp add: suffix_def)
  ultimately show ?thesis
    using assms(1,2)
    by (simp add: getSubdomainAndCustomDomainFromUrl_def endsWith_def isDefaultSubdomain_def)
qed

lemma key_custom_domain:
  assumes "newURL P url = Some parsed" and "getFrontUrl P env = Some front"
      and "\<not> suffix (CHR ''.'' # hostname front) (hostname parsed)"
  shows "getSubdomainAndCustomDomainFromUrl P env url =
           Inr \<lparr>key_subdomain = None, key_customDomain = Some (hostname parsed)\<rparr>"
  using assms by (simp add: getSubdomainAndCustomDomainFromUrl_def endsWith_def)

text \<open>
  C1 (as the code has it). Let the origin URL parse and the front URL be constructible.
  If the origin hostname is \<open>p.frontDomain\<close> and \<open>.frontDomain\<close> occurs nowhere earlier in
  it, the result has \<open>subdomain = p\<close>, the whole text before the suffix, suppressed when
  \<open>p\<close> is the configured \<open>DEFAULT_SUBDOMAIN\<close>, and \<open>customDomain = null\<close>. When \<open>p\<close> has no
  dot, no earlier occurrence is possible and \<open>p\<close> is the leading label of the hostname.
  If the hostname does not end with \<open>.frontDomain\<close>, the result has the whole hostname as
  \<open>customDomain\<close> and no \<open>subdomain\<close>.
\<close>

theorem getSubdomainAndCustomDomainFromUrl_by_suffix:
  assumes "newURL P url = Some parsed" and "getFrontUrl P env = Some front"
  shows "(\<forall>p. hostname parsed = p @ ''.'' @ hostname front
               \<and> \<not> sublist (''.'' @ hostname front) (butlast (hostname parsed)) \<longrightarrow>
            getSubdomainAndCustomDomainFromUrl P env url =
              Inr \<lparr>key_subdomain = (if Some p = DEFAULT_SUBDOMAIN env then None else Some p),
                   key_customDomain = None\<rparr>)
       \<and> (\<forall>p. hostname parsed = p @ ''.'' @ hostname front \<and> CHR ''.'' \<notin> set p \<longrightarrow>
            p = spec_leading_label (hostname parsed)
            \<and> \<not> sublist (''.'' @ hostname front) (butlast (hostname parsed)))
       \<and> (\<not> endsWith (hostname parsed) (''.'' @ hostname front) \<longrightarrow>
            getSubdomainAndCustomDomainFromUrl P env url =
              Inr \<lparr>key_subdomain = None, key_customDomain = Some (hostname parsed)\<rparr>)"
proof (intro conjI allI impI)
  fix p
  assume "hostname parsed = p @ ''.'' @ hostname front
          \<and> \<not> sublist (''.'' @ hostname front) (butlast (hostname parsed))"
  moreover have "''.'' @ hostname front = CHR ''.'' # hostname front" by simp
  ultimately have "hostname parsed = p @ CHR ''.'' # hostname front"
    and "\<not> sublist (CHR ''.'' # hostname front) (butlast (hostname parsed))"
    by metis+
  then show "getSubdomainAndCustomDomainFromUrl P env url =
               Inr \<lparr>key_subdomain = (if Some p = DEFAULT_SUBDOMAIN env then None else Some p),
                    key_customDomain = None\<rparr>"
    by (rule key_front_domain [OF assms])
next
  fix p
  assume h: "hostname parsed = p @ ''.'' @ hostname front \<and> CHR ''.'' \<notin> set p"
  then show "p = spec_leading_label (hostname parsed)"
    using leading_label_no_dot [of p "hostname front"] by simp
  from h show "\<not> sublist (''.'' @ hostname front) (butlast (hostname parsed))"
    using no_dot_not_sublist [of p "hostname front"] by simp
next
  assume "\<not> endsWith (hostname parsed) (''.'' @ hostname front)"
  then show "getSubdomainAndCustomDomainFromUrl P env url =
               Inr \<lparr>key_subdomain = None, key_customDomain = Some (hostname parsed)\<rparr>"
    using key_custom_domain [OF assms] by (simp add: endsWith_def)
qed

theorem getSubdomainAndCustomDomainFromUrl_by_suffix_witness:
  "newURL simple_platform ''https://acme.twenty.com/welcome'' =
     Some \<lparr>protocol = ''https'', hostname = ''acme.twenty.com'', port = [],
           pathname = ''/welcome'', searchParams = []\<rparr>
   \<and> getFrontUrl simple_platform env_memory =
     Some \<lparr>protocol = ''https'', hostname = ''twenty.com'', port = [], pathname = ''/'',
           searchParams = []\<rparr>
   \<and> CHR ''.'' \<notin> set ''acme''
   \<and> ''acme'' = spec_leading_label ''acme.twenty.com''
   \<and> \<not> sublist ''.twenty.com'' (butlast ''acme.twenty.com'')
   \<and> getSubdomainAndCustomDomainFromUrl simple_platform env_memory
        ''https://acme.twenty.com/welcome'' =
     Inr \<lparr>key_subdomain = Some ''acme'', key_customDomain = None\<rparr>"
proof -
  note parsed = parse_simple(3)
  note inst = getSubdomainAndCustomDomainFromUrl_by_suffix [OF parsed front_memory]
  have nodot: "CHR ''.'' \<notin> set ''acme''" by simp
  from inst nodot have label: "''acme'' = spec_leading_label ''acme.twenty.com''"
    and first: "\<not> sublist ''.twenty.com'' (butlast ''acme.twenty.com'')"
    by force+
  from inst first
  have "getSubdomainAndCustomDomainFromUrl simple_platform env_memory
          ''https://acme.twenty.com/welcome'' =
        Inr \<lparr>key_subdomain = (if Some ''acme'' = DEFAULT_SUBDOMAIN env_memory then None
                               else Some ''acme''),
             key_customDomain = None\<rparr>"
    by force
  then have "getSubdomainAndCustomDomainFromUrl simple_platform env_memory
          ''https://acme.twenty.com/welcome'' =
        Inr \<lparr>key_subdomain = Some ''acme'', key_customDomain = None\<rparr>"
    by (simp add: default_memory)
  with parsed front_memory nodot label first show ?thesis by simp
qed

text \<open>
  C1 (as the spec words it) fails on a hostname with two labels before the front domain:
  the code returns both labels, not the leading one.
\<close>

theorem getSubdomainAndCustomDomainFromUrl_leading_label_counterexample:
  "getSubdomainAndCustomDomainFromUrl simple_platform env_memory ''https://a.b.twenty.com'' =
     Inr \<lparr>key_subdomain = Some ''a.b'', key_customDomain = None\<rparr>
   \<and> spec_leading_label ''a.b.twenty.com'' = ''a''
   \<and> endsWith ''a.b.twenty.com'' ''.twenty.com''
   \<and> getSubdomainAndCustomDomainFromUrl simple_platform env_memory ''https://a.b.twenty.com'' \<noteq>
     Inr \<lparr>key_subdomain = Some (spec_leading_label ''a.b.twenty.com''),
          key_customDomain = None\<rparr>"
  by (simp add: getSubdomainAndCustomDomainFromUrl_def front_memory parse_simple
        endsWith_def spec_leading_label_def isDefaultSubdomain_def default_memory suffix_def)

text \<open>
  C5. Whatever the URL, a result never carries both a subdomain and a custom domain: one
  of the two is always unset.
\<close>

theorem getSubdomainAndCustomDomainFromUrl_never_both:
  assumes "getSubdomainAndCustomDomainFromUrl P env url = Inr r"
  shows "(key_subdomain r = None \<or> key_customDomain r = None)
       \<and> \<not> (truthy_string (key_subdomain r) \<and> key_customDomain r \<noteq> None)"
proof -
  have "key_subdomain r = None \<or> key_customDomain r = None"
  proof (cases "newURL P url")
    case None
    with assms show ?thesis by (simp add: getSubdomainAndCustomDomainFromUrl_def)
  next
    case parsed: (Some parsed)
    show ?thesis
    proof (cases "getFrontUrl P env")
      case None
      with assms parsed show ?thesis by (simp add: getSubdomainAndCustomDomainFromUrl_def)
    next
      case (Some front)
      with assms parsed show ?thesis
        by (auto simp: getSubdomainAndCustomDomainFromUrl_def Let_def)
    qed
  qed
  then show ?thesis by auto
qed

theorem getSubdomainAndCustomDomainFromUrl_never_both_witness:
  "getSubdomainAndCustomDomainFromUrl simple_platform env_memory ''https://crm.acme.org:8080/x'' =
     Inr \<lparr>key_subdomain = None, key_customDomain = Some ''crm.acme.org''\<rparr>
   \<and> (key_subdomain \<lparr>key_subdomain = None, key_customDomain = Some ''crm.acme.org''\<rparr> = None
      \<or> key_customDomain \<lparr>key_subdomain = None, key_customDomain = Some ''crm.acme.org''\<rparr> = None)"
proof -
  have run: "getSubdomainAndCustomDomainFromUrl simple_platform env_memory
               ''https://crm.acme.org:8080/x'' =
             Inr \<lparr>key_subdomain = None, key_customDomain = Some ''crm.acme.org''\<rparr>"
    by (simp add: getSubdomainAndCustomDomainFromUrl_def front_memory parse_simple
          endsWith_def suffix_def)
  from getSubdomainAndCustomDomainFromUrl_never_both [OF run] run show ?thesis by simp
qed

section \<open>Properties of the single-workspace resolution\<close>

lemma head_newest:
  assumes "find_order_createdAt_DESC repo = w # ws"
  shows "w \<in> set repo \<and> (\<forall>x \<in> set repo. createdAt x \<le> createdAt w)"
proof -
  have s: "sorted (map (\<lambda>w. - createdAt w) (sort_key (\<lambda>w. - createdAt w) repo))"
    by (rule sorted_sort_key)
  have m: "set (sort_key (\<lambda>w. - createdAt w) repo) = set repo" by simp
  from assms m have mem: "set repo = insert w (set ws)"
    by (simp add: find_order_createdAt_DESC_def)
  from assms s have "\<forall>x \<in> set ws. - createdAt w \<le> - createdAt x"
    by (simp add: find_order_createdAt_DESC_def)
  with mem show ?thesis by auto
qed

lemma order_length: "length (find_order_createdAt_DESC repo) = length repo"
  by (simp add: find_order_createdAt_DESC_def)

lemma default_workspace_found:
  assumes "\<not> IS_MULTIWORKSPACE_ENABLED env" and "DEFAULT_SUBDOMAIN env = Some d"
      and "\<exists>x \<in> set repo. subdomain x = d"
  shows "\<exists>w. getDefaultWorkspace env repo = Inr ([], Some w) \<and> w \<in> set repo \<and> subdomain w = d"
proof -
  from assms(3) obtain w where w: "find (\<lambda>w. subdomain w = d) repo = Some w"
    by (cases "find (\<lambda>w. subdomain w = d) repo") (auto simp: find_None_iff)
  then have "w \<in> set repo \<and> subdomain w = d"
    by (auto simp: find_Some_iff)
  moreover from w assms(1,2) have "getDefaultWorkspace env repo = Inr ([], Some w)"
    by (simp add: getDefaultWorkspace_def)
  ultimately show ?thesis by blast
qed

lemma default_workspace_fallback:
  assumes "\<not> IS_MULTIWORKSPACE_ENABLED env"
      and "\<not> (\<exists>d. DEFAULT_SUBDOMAIN env = Some d \<and> (\<exists>x \<in> set repo. subdomain x = d))"
  shows "getDefaultWorkspace env repo =
           Inr (if length repo > 1 then [single_workspace_warning (length repo)] else [],
                case find_order_createdAt_DESC repo of [] \<Rightarrow> None | w # _ \<Rightarrow> Some w)"
proof -
  have "(case DEFAULT_SUBDOMAIN env of None \<Rightarrow> None
         | Some d \<Rightarrow> find (\<lambda>w. subdomain w = d) repo) = None"
    using assms(2) by (cases "DEFAULT_SUBDOMAIN env") (auto simp: find_None_iff)
  with assms(1) show ?thesis
    by (simp add: getDefaultWorkspace_def order_length)
qed

text \<open>
  C8 (as the code has it). With multi-tenancy disabled, resolution by origin never throws.
  It returns a workspace of the store whenever the store holds one, and \<open>undefined\<close> on an
  empty store. A workspace whose subdomain is the configured \<open>DEFAULT_SUBDOMAIN\<close> is
  returned if there is one, and then nothing is logged. Otherwise the result is a
  most-recently-created workspace, and a warning is logged exactly when the store holds
  more than one workspace.
\<close>

theorem getWorkspaceByOriginOrDefaultWorkspace_single_mode:
  assumes "\<not> IS_MULTIWORKSPACE_ENABLED env"
  shows "\<exists>log r. getWorkspaceByOriginOrDefaultWorkspace P env repo origin = Inr (log, r)
           \<and> (r = None \<longleftrightarrow> repo = [])
           \<and> (\<forall>w. r = Some w \<longrightarrow> w \<in> set repo)
           \<and> (\<forall>d. DEFAULT_SUBDOMAIN env = Some d \<and> (\<exists>x \<in> set repo. subdomain x = d) \<longrightarrow>
                 (\<exists>w. r = Some w \<and> subdomain w = d) \<and> log = [])
           \<and> (\<not> (\<exists>d. DEFAULT_SUBDOMAIN env = Some d \<and> (\<exists>x \<in> set repo. subdomain x = d)) \<longrightarrow>
                 (\<forall>w. r = Some w \<longrightarrow> (\<forall>x \<in> set repo. createdAt x \<le> createdAt w))
                 \<and> (log \<noteq> [] \<longleftrightarrow> length repo > 1))"
proof (cases "\<exists>d. DEFAULT_SUBDOMAIN env = Some d \<and> (\<exists>x \<in> set repo. subdomain x = d)")
  case True
  then obtain d where d: "DEFAULT_SUBDOMAIN env = Some d" "\<exists>x \<in> set repo. subdomain x = d"
    by blast
  from default_workspace_found [OF assms d] obtain w
    where w: "getDefaultWorkspace env repo = Inr ([], Some w)" "w \<in> set repo" "subdomain w = d"
    by blast
  have run: "getWorkspaceByOriginOrDefaultWorkspace P env repo origin = Inr ([], Some w)"
    using assms w(1) by (simp add: getWorkspaceByOriginOrDefaultWorkspace_def)
  have nonempty: "repo \<noteq> []" using w(2) by auto
  show ?thesis
  proof (rule exI [of _ "[]"], rule exI [of _ "Some w"], intro conjI)
    show "getWorkspaceByOriginOrDefaultWorkspace P env repo origin = Inr ([], Some w)"
      by (rule run)
    show "(Some w = None) = (repo = [])" using nonempty by simp
    show "\<forall>w'. Some w = Some w' \<longrightarrow> w' \<in> set repo" using w(2) by simp
    show "\<forall>d. DEFAULT_SUBDOMAIN env = Some d \<and> (\<exists>x \<in> set repo. subdomain x = d) \<longrightarrow>
               (\<exists>w'. Some w = Some w' \<and> subdomain w' = d) \<and> [] = ([]::string list)"
      using d(1) w(3) by simp
    show "\<not> (\<exists>d. DEFAULT_SUBDOMAIN env = Some d \<and> (\<exists>x \<in> set repo. subdomain x = d)) \<longrightarrow>
            (\<forall>w'. Some w = Some w' \<longrightarrow> (\<forall>x \<in> set repo. createdAt x \<le> createdAt w'))
            \<and> (([]::string list) \<noteq> [] \<longleftrightarrow> length repo > 1)"
      using True by blast
  qed
next
  case False
  let ?log = "if length repo > 1 then [single_workspace_warning (length repo)] else []"
  let ?r = "case find_order_createdAt_DESC repo of [] \<Rightarrow> None | w # _ \<Rightarrow> Some w"
  have run: "getWorkspaceByOriginOrDefaultWorkspace P env repo origin = Inr (?log, ?r)"
    using assms default_workspace_fallback [OF assms False]
    by (simp add: getWorkspaceByOriginOrDefaultWorkspace_def)
  have none: "?r = None \<longleftrightarrow> repo = []"
    using order_length [of repo] by (cases "find_order_createdAt_DESC repo") auto
  have newest: "\<forall>w. ?r = Some w \<longrightarrow> w \<in> set repo \<and> (\<forall>x \<in> set repo. createdAt x \<le> createdAt w)"
    using head_newest [of repo] by (cases "find_order_createdAt_DESC repo") auto
  have warn: "?log \<noteq> [] \<longleftrightarrow> length repo > 1" by simp
  show ?thesis
  proof (rule exI [of _ ?log], rule exI [of _ ?r], intro conjI)
    show "getWorkspaceByOriginOrDefaultWorkspace P env repo origin = Inr (?log, ?r)"
      by (rule run)
    show "(?r = None) = (repo = [])" by (rule none)
    show "\<forall>w. ?r = Some w \<longrightarrow> w \<in> set repo" using newest by blast
    show "\<forall>d. DEFAULT_SUBDOMAIN env = Some d \<and> (\<exists>x \<in> set repo. subdomain x = d) \<longrightarrow>
               (\<exists>w. ?r = Some w \<and> subdomain w = d) \<and> ?log = []"
      using False by blast
    show "\<not> (\<exists>d. DEFAULT_SUBDOMAIN env = Some d \<and> (\<exists>x \<in> set repo. subdomain x = d)) \<longrightarrow>
            (\<forall>w. ?r = Some w \<longrightarrow> (\<forall>x \<in> set repo. createdAt x \<le> createdAt w))
            \<and> (?log \<noteq> [] \<longleftrightarrow> length repo > 1)"
      using newest warn by blast
  qed
qed

lemma multiworkspace_single: "\<not> IS_MULTIWORKSPACE_ENABLED env_single"
  by (simp add: env_single_def env_memory_def)

lemma default_single: "DEFAULT_SUBDOMAIN env_single = Some ''app''"
  by (simp add: env_single_def env_memory_def)

text \<open>
  C8 (as the spec words it) fails on an empty store: nothing is returned, and nothing is
  thrown.
\<close>

theorem getWorkspaceByOriginOrDefaultWorkspace_empty_store_counterexample:
  "getWorkspaceByOriginOrDefaultWorkspace simple_platform env_single [] ''http://localhost:3001'' =
     Inr ([], None)"
  by (simp add: getWorkspaceByOriginOrDefaultWorkspace_def getDefaultWorkspace_def
        multiworkspace_single default_single find_order_createdAt_DESC_def)

lemma run_two_workspaces:
  "getWorkspaceByOriginOrDefaultWorkspace simple_platform env_single [ws_old, ws_new]
     ''http://localhost:3001'' =
   Inr ([single_workspace_warning 2], Some ws_new)"
  by (simp add: getWorkspaceByOriginOrDefaultWorkspace_def getDefaultWorkspace_def
        multiworkspace_single default_single find_order_createdAt_DESC_def
        ws_old_def ws_new_def numeral_2_eq_2)

theorem getWorkspaceByOriginOrDefaultWorkspace_single_mode_witness:
  "\<not> IS_MULTIWORKSPACE_ENABLED env_single
   \<and> getWorkspaceByOriginOrDefaultWorkspace simple_platform env_single [ws_old, ws_new]
       ''http://localhost:3001'' = Inr ([single_workspace_warning 2], Some ws_new)
   \<and> ws_new \<in> set [ws_old, ws_new]
   \<and> createdAt ws_old \<le> createdAt ws_new"
proof -
  have no_default: "\<not> (\<exists>d. DEFAULT_SUBDOMAIN env_single = Some d
                          \<and> (\<exists>x \<in> set [ws_old, ws_new]. subdomain x = d))"
    by (simp add: default_single ws_old_def ws_new_def)
  note inst = getWorkspaceByOriginOrDefaultWorkspace_single_mode
                [OF multiworkspace_single, of simple_platform "[ws_old, ws_new]"
                   "''http://localhost:3001''", unfolded run_two_workspaces]
  from inst no_default
  have "ws_new \<in> set [ws_old, ws_new]
        \<and> (\<forall>x \<in> set [ws_old, ws_new]. createdAt x \<le> createdAt ws_new)"
    by blast
  then have "ws_new \<in> set [ws_old, ws_new] \<and> createdAt ws_old \<le> createdAt ws_new"
    by simp
  with multiworkspace_single run_two_workspaces show ?thesis by blast
qed

section \<open>Properties of \<open>buildWorkspaceURL\<close>\<close>

lemma searchParams_set_fresh:
  "k \<notin> fst ` set ps \<Longrightarrow> searchParams_set ps k v = ps @ [(k, v)]"
  by (induction ps) auto

lemma map_of_searchParams_set_same: "map_of (searchParams_set ps k v) k = Some v"
  by (induction ps) auto

lemma map_of_searchParams_set_other:
  "k' \<noteq> k \<Longrightarrow> map_of (searchParams_set ps k v) k' = map_of ps k'"
proof (induction ps)
  case Nil
  then show ?case by simp
next
  case (Cons a ps)
  have "map_of (filter (\<lambda>p. fst p \<noteq> k) ps) k' = map_of ps k'"
    using Cons.prems by (induction ps) auto
  with Cons show ?case by (cases a) auto
qed

lemma set_search_param_None: "set_search_param P u (k, None) = u"
  by (simp add: set_search_param_def)

lemma set_search_param_Some:
  "set_search_param P u (k, Some v) =
     u \<lparr>searchParams := searchParams_set (searchParams u) k (value_toString P v)\<rparr>"
  by (simp add: set_search_param_def)

lemma foldl_set_search_param_frame:
  "hostname (foldl (set_search_param P) u es) = hostname u
   \<and> protocol (foldl (set_search_param P) u es) = protocol u
   \<and> port (foldl (set_search_param P) u es) = port u
   \<and> pathname (foldl (set_search_param P) u es) = pathname u"
proof (induction es arbitrary: u)
  case Nil
  show ?case by simp
next
  case (Cons e es)
  obtain k ov where e: "e = (k, ov)" by (cases e)
  show ?case using Cons [of "set_search_param P u e"] e
    by (cases ov) (simp_all add: set_search_param_None set_search_param_Some)
qed

lemma foldl_set_search_param_fresh:
  "distinct (map fst es) \<Longrightarrow> fst ` set es \<inter> fst ` set (searchParams u) = {} \<Longrightarrow>
   searchParams (foldl (set_search_param P) u es) = searchParams u @ spec_defined_entries P es"
proof (induction es arbitrary: u)
  case Nil
  show ?case by simp
next
  case (Cons e es)
  obtain k ov where e: "e = (k, ov)" by (cases e)
  show ?case
  proof (cases ov)
    case None
    have "searchParams (foldl (set_search_param P) u es) =
            searchParams u @ spec_defined_entries P es"
      using Cons.prems by (intro Cons.IH) auto
    with e None show ?thesis by (simp add: set_search_param_None)
  next
    case (Some v)
    let ?u = "u \<lparr>searchParams := searchParams u @ [(k, value_toString P v)]\<rparr>"
    have fresh: "k \<notin> fst ` set (searchParams u)" using Cons.prems(2) e by auto
    then have step: "set_search_param P u e = ?u"
      using e Some by (simp add: set_search_param_Some searchParams_set_fresh)
    have "k \<notin> fst ` set es" using Cons.prems(1) e by simp
    then have inter: "fst ` set es \<inter> fst ` set (searchParams ?u) = {}"
      using Cons.prems(2) by auto
    have dist: "distinct (map fst es)" using Cons.prems(1) by simp
    have "searchParams (foldl (set_search_param P) ?u es) =
            searchParams ?u @ spec_defined_entries P es"
      by (rule Cons.IH [OF dist inter])
    with step e Some show ?thesis by simp
  qed
qed

lemma foldl_set_search_param_untouched:
  "\<forall>v. (k, Some v) \<notin> set es \<Longrightarrow>
   map_of (searchParams (foldl (set_search_param P) u es)) k = map_of (searchParams u) k"
proof (induction es arbitrary: u)
  case Nil
  show ?case by simp
next
  case (Cons e es)
  obtain k' ov where e: "e = (k', ov)" by (cases e)
  have rest: "\<forall>v. (k, Some v) \<notin> set es" using Cons.prems by simp
  have "map_of (searchParams (set_search_param P u e)) k = map_of (searchParams u) k"
  proof (cases ov)
    case None
    with e show ?thesis by (simp add: set_search_param_None)
  next
    case (Some v)
    with Cons.prems e have "k \<noteq> k'" by auto
    with e Some show ?thesis
      by (simp add: set_search_param_Some map_of_searchParams_set_other)
  qed
  with Cons.IH [OF rest, of "set_search_param P u e"] show ?case by simp
qed

lemma foldl_set_search_param_defined:
  "distinct (map fst es) \<Longrightarrow> (k, Some v) \<in> set es \<Longrightarrow>
   map_of (searchParams (foldl (set_search_param P) u es)) k = Some (value_toString P v)"
proof (induction es arbitrary: u)
  case Nil
  then show ?case by simp
next
  case (Cons e es)
  show ?case
  proof (cases "e = (k, Some v)")
    case True
    have "k \<notin> fst ` set es" using Cons.prems(1) True by simp
    then have "\<forall>v'. (k, Some v') \<notin> set es" by force
    then have "map_of (searchParams (foldl (set_search_param P) (set_search_param P u e) es)) k =
               map_of (searchParams (set_search_param P u e)) k"
      by (rule foldl_set_search_param_untouched)
    with True show ?thesis
      by (simp add: set_search_param_Some map_of_searchParams_set_same)
  next
    case False
    with Cons.prems(2) have "(k, Some v) \<in> set es" by simp
    moreover have "distinct (map fst es)" using Cons.prems(1) by simp
    ultimately show ?thesis using Cons.IH by simp
  qed
qed

text \<open>What the parameter loop of \<open>buildWorkspaceURL\<close> does to a URL, for the entries of an
  object.\<close>

lemma search_params_of_entries:
  assumes "distinct (map fst entries)"
  shows "hostname (foldl (set_search_param P) start entries) = hostname start
       \<and> protocol (foldl (set_search_param P) start entries) = protocol start
       \<and> port (foldl (set_search_param P) start entries) = port start
       \<and> pathname (foldl (set_search_param P) start entries) = pathname start
       \<and> (\<forall>k v. (k, Some v) \<in> set entries \<longrightarrow>
             map_of (searchParams (foldl (set_search_param P) start entries)) k =
               Some (value_toString P v))
       \<and> (\<forall>k. (k, None) \<in> set entries \<longrightarrow>
             map_of (searchParams (foldl (set_search_param P) start entries)) k =
               map_of (searchParams start) k)
       \<and> (fst ` set entries \<inter> fst ` set (searchParams start) = {} \<longrightarrow>
             searchParams (foldl (set_search_param P) start entries) =
               searchParams start @ spec_defined_entries P entries)"
proof -
  let ?res = "foldl (set_search_param P) start entries"
  note frame = foldl_set_search_param_frame [of P start entries]
  have defined: "\<forall>k v. (k, Some v) \<in> set entries \<longrightarrow>
                   map_of (searchParams ?res) k = Some (value_toString P v)"
    using foldl_set_search_param_defined [OF assms] by blast
  have undefined: "\<forall>k. (k, None) \<in> set entries \<longrightarrow>
                     map_of (searchParams ?res) k = map_of (searchParams start) k"
  proof (intro allI impI)
    fix k
    assume k: "(k, None) \<in> set entries"
    have "\<forall>v. (k, Some v) \<notin> set entries"
    proof (intro allI notI)
      fix v
      assume "(k, Some v) \<in> set entries"
      with k assms have "(None :: 'a search_value option) = Some v"
        by (meson eq_key_imp_eq_value)
      then show False by simp
    qed
    then show "map_of (searchParams ?res) k = map_of (searchParams start) k"
      by (rule foldl_set_search_param_untouched)
  qed
  have appended: "fst ` set entries \<inter> fst ` set (searchParams start) = {} \<longrightarrow>
                    searchParams ?res = searchParams start @ spec_defined_entries P entries"
    using foldl_set_search_param_fresh [OF assms] by blast
  from frame defined undefined appended show ?thesis by (intro conjI) blast+
qed

lemma buildWorkspaceURL_no_front:
  assumes "getFrontUrl P env = None"
  shows "buildWorkspaceURL P env w pathname' searchParams' = Inl TypeError_InvalidURL"
  using assms
  by (simp add: buildWorkspaceURL_def getWorkspaceUrls_def getCustomWorkspaceUrl_def
        getTwentyWorkspaceUrl_def)

lemma getWorkspaceUrls_custom:
  assumes "getFrontUrl P env = Some front"
      and "isCustomDomainEnabled w \<and> truthy_string (customDomain w)"
  shows "getWorkspaceUrls P env w =
           Inr \<lparr>customUrl = Some (toString P (set_hostname P front (the (customDomain w)))),
                subdomainUrl =
                  toString P (set_hostname P front (subdomain w @ ''.'' @ hostname front))\<rparr>"
  using assms
  by (simp add: getWorkspaceUrls_def getCustomWorkspaceUrl_def getTwentyWorkspaceUrl_def)

lemma getWorkspaceUrls_subdomain:
  assumes "getFrontUrl P env = Some front"
      and "\<not> (isCustomDomainEnabled w \<and> truthy_string (customDomain w))"
  shows "getWorkspaceUrls P env w =
           Inr \<lparr>customUrl = None,
                subdomainUrl =
                  toString P (set_hostname P front (subdomain w @ ''.'' @ hostname front))\<rparr>"
  using assms
  by (auto simp: getWorkspaceUrls_def getTwentyWorkspaceUrl_def)

lemma custom_domain_set:
  "(isCustomDomainEnabled w \<and> customDomain w \<noteq> None \<and> customDomain w \<noteq> Some [])
     = (isCustomDomainEnabled w \<and> truthy_string (customDomain w))"
  by (cases "customDomain w") simp_all

text \<open>The text that \<open>buildWorkspaceURL\<close> hands to \<open>new URL\<close>, and what it does with the
  parsed URL.\<close>

lemma buildWorkspaceURL_text:
  assumes front: "getFrontUrl P env = Some front"
      and host: "host =
                   (if isCustomDomainEnabled w \<and> customDomain w \<noteq> None \<and> customDomain w \<noteq> Some []
                    then the (customDomain w) else subdomain w @ ''.'' @ hostname front)"
      and base: "href = toString P (set_hostname P front host)"
  shows "buildWorkspaceURL P env w pathname' searchParams' =
           (case newURL P href of
              None \<Rightarrow> Inl TypeError_InvalidURL
            | Some url \<Rightarrow>
                Inr (foldl (set_search_param P)
                       (if truthy_string pathname' then set_pathname P url (the pathname')
                        else url)
                       (case searchParams' of None \<Rightarrow> [] | Some al \<Rightarrow> DAList.impl_of al)))"
proof (cases "isCustomDomainEnabled w \<and> truthy_string (customDomain w)")
  case True
  with host have h: "host = the (customDomain w)"
    unfolding custom_domain_set by simp
  show ?thesis
    using getWorkspaceUrls_custom [OF front True]
    unfolding base h
    by (cases searchParams') (simp_all add: buildWorkspaceURL_def split: option.splits)
next
  case False
  with host have h: "host = subdomain w @ ''.'' @ hostname front"
    unfolding custom_domain_set by simp
  show ?thesis
    using getWorkspaceUrls_subdomain [OF front False]
    unfolding base h
    by (cases searchParams') (simp_all add: buildWorkspaceURL_def split: option.splits)
qed

lemma workspace_url_text:
  assumes front: "getFrontUrl P env = Some front"
  shows "getCustomWorkspaceUrl P env d = Inr (toString P (set_hostname P front d))"
    and "getTwentyWorkspaceUrl P env s =
           Inr (toString P (set_hostname P front (s @ ''.'' @ hostname front)))"
  using front by (simp_all add: getCustomWorkspaceUrl_def getTwentyWorkspaceUrl_def)

text \<open>
  C7. For every workspace, \<open>buildWorkspaceURL\<close> builds on the custom-domain URL (the front
  URL with the host set to \<open>customDomain\<close>) when \<open>isCustomDomainEnabled\<close> holds and
  \<open>customDomain\<close> is non-empty, and on the subdomain URL (the front URL with the host set to
  \<open>{subdomain}.{frontDomain}\<close>) otherwise, also when \<open>isCustomDomainEnabled\<close> holds with an
  empty or absent \<open>customDomain\<close>. It throws only where the platform refuses the front
  URL or that URL's text. On the parsed URL the path is set if one is given, and then,
  of the search parameters, every defined value is in the URL under its name and every
  undefined value leaves its name as it was; when none of the names is in the URL already,
  the defined values are appended in order. Host, scheme, port and path are not touched
  by the parameters.
\<close>

theorem buildWorkspaceURL_custom_or_subdomain:
  "(getFrontUrl P env = None \<longrightarrow>
      buildWorkspaceURL P env w pathname' searchParams' = Inl TypeError_InvalidURL)
   \<and> (\<forall>front host href.
        getFrontUrl P env = Some front
        \<and> host = (if isCustomDomainEnabled w \<and> customDomain w \<noteq> None \<and> customDomain w \<noteq> Some []
                   then the (customDomain w) else subdomain w @ ''.'' @ hostname front)
        \<and> href = toString P (set_hostname P front host) \<longrightarrow>
        (if isCustomDomainEnabled w \<and> customDomain w \<noteq> None \<and> customDomain w \<noteq> Some []
         then getCustomWorkspaceUrl P env (the (customDomain w)) = Inr href
         else getTwentyWorkspaceUrl P env (subdomain w) = Inr href)
        \<and> (newURL P href = None \<longrightarrow>
             buildWorkspaceURL P env w pathname' searchParams' = Inl TypeError_InvalidURL)
        \<and> (\<forall>url start entries.
             newURL P href = Some url
             \<and> start = (if truthy_string pathname' then set_pathname P url (the pathname')
                         else url)
             \<and> entries = (case searchParams' of None \<Rightarrow> [] | Some al \<Rightarrow> DAList.impl_of al) \<longrightarrow>
             (\<exists>res. buildWorkspaceURL P env w pathname' searchParams' = Inr res
                \<and> hostname res = hostname start \<and> protocol res = protocol start
                \<and> port res = port start \<and> pathname res = pathname start
                \<and> (\<forall>k v. (k, Some v) \<in> set entries \<longrightarrow>
                      map_of (searchParams res) k = Some (value_toString P v))
                \<and> (\<forall>k. (k, None) \<in> set entries \<longrightarrow>
                      map_of (searchParams res) k = map_of (searchParams start) k)
                \<and> (fst ` set entries \<inter> fst ` set (searchParams start) = {} \<longrightarrow>
                      searchParams res = searchParams start @ spec_defined_entries P entries))))"
proof (intro conjI allI impI)
  assume "getFrontUrl P env = None"
  then show "buildWorkspaceURL P env w pathname' searchParams' = Inl TypeError_InvalidURL"
    by (rule buildWorkspaceURL_no_front)
next
  fix front host href
  assume h: "getFrontUrl P env = Some front
             \<and> host = (if isCustomDomainEnabled w \<and> customDomain w \<noteq> None
                            \<and> customDomain w \<noteq> Some []
                        then the (customDomain w) else subdomain w @ ''.'' @ hostname front)
             \<and> href = toString P (set_hostname P front host)"
  then have front: "getFrontUrl P env = Some front"
    and host: "host = (if isCustomDomainEnabled w \<and> customDomain w \<noteq> None
                           \<and> customDomain w \<noteq> Some []
                       then the (customDomain w) else subdomain w @ ''.'' @ hostname front)"
    and base: "href = toString P (set_hostname P front host)"
    by blast+
  note run = buildWorkspaceURL_text [OF front host base, of pathname' searchParams']
  show "if isCustomDomainEnabled w \<and> customDomain w \<noteq> None \<and> customDomain w \<noteq> Some []
        then getCustomWorkspaceUrl P env (the (customDomain w)) = Inr href
        else getTwentyWorkspaceUrl P env (subdomain w) = Inr href"
    using workspace_url_text [OF front] host base by (auto split: if_splits)
  {
    assume "newURL P href = None"
    with run show "buildWorkspaceURL P env w pathname' searchParams' = Inl TypeError_InvalidURL"
      by simp
  }
  {
    fix url start entries
    assume p: "newURL P href = Some url
               \<and> start = (if truthy_string pathname' then set_pathname P url (the pathname')
                           else url)
               \<and> entries = (case searchParams' of None \<Rightarrow> [] | Some al \<Rightarrow> DAList.impl_of al)"
    then have res: "buildWorkspaceURL P env w pathname' searchParams' =
                      Inr (foldl (set_search_param P) start entries)"
      using run by simp
    have "distinct (map fst entries)"
      using p by (cases searchParams') simp_all
    from search_params_of_entries [OF this, of P start] res
    show "\<exists>res. buildWorkspaceURL P env w pathname' searchParams' = Inr res
            \<and> hostname res = hostname start \<and> protocol res = protocol start
            \<and> port res = port start \<and> pathname res = pathname start
            \<and> (\<forall>k v. (k, Some v) \<in> set entries \<longrightarrow>
                  map_of (searchParams res) k = Some (value_toString P v))
            \<and> (\<forall>k. (k, None) \<in> set entries \<longrightarrow>
                  map_of (searchParams res) k = map_of (searchParams start) k)
            \<and> (fst ` set entries \<inter> fst ` set (searchParams start) = {} \<longrightarrow>
                  searchParams res = searchParams start @ spec_defined_entries P entries)"
      by (intro exI [of _ "foldl (set_search_param P) start entries"]) simp
  }
qed

lemma verify_email_entries:
  "DAList.impl_of
     (Alist [(''emailVerificationToken'', Some (StringValue ''tok'')),
             (''attempt'', Some (NumberValue (3::int))), (''email'', None)]) =
   [(''emailVerificationToken'', Some (StringValue ''tok'')),
    (''attempt'', Some (NumberValue 3)), (''email'', None)]"
  by (rule impl_of_Alist) simp

lemma custom_url_parsed:
  "newURL simple_platform
     (toString simple_platform
        (set_hostname simple_platform
           \<lparr>protocol = ''https'', hostname = ''twenty.com'', port = [], pathname = ''/'',
            searchParams = []\<rparr> ''crm.globex.com'')) =
   Some \<lparr>protocol = ''https'', hostname = ''crm.globex.com'', port = [], pathname = ''/'',
         searchParams = []\<rparr>"
  by (simp add: simple_platform_def simple_set_hostname_def simple_toString_def
        simple_newURL_def default_port_def ascii_lower_def is_digit_def)

theorem buildWorkspaceURL_custom_or_subdomain_witness:
  "getFrontUrl simple_platform env_memory =
     Some \<lparr>protocol = ''https'', hostname = ''twenty.com'', port = [], pathname = ''/'',
           searchParams = []\<rparr>
   \<and> newURL simple_platform
       (toString simple_platform
          (set_hostname simple_platform
             \<lparr>protocol = ''https'', hostname = ''twenty.com'', port = [], pathname = ''/'',
              searchParams = []\<rparr> ''crm.globex.com'')) =
     Some \<lparr>protocol = ''https'', hostname = ''crm.globex.com'', port = [], pathname = ''/'',
           searchParams = []\<rparr>
   \<and> (\<exists>res. buildWorkspaceURL simple_platform env_memory ws_new (Some ''verify-email'')
               (Some (Alist [(''emailVerificationToken'', Some (StringValue ''tok'')),
                             (''attempt'', Some (NumberValue 3)), (''email'', None)])) = Inr res
            \<and> hostname res = ''crm.globex.com''
            \<and> pathname res = ''/verify-email''
            \<and> searchParams res = [(''emailVerificationToken'', ''tok''), (''attempt'', ''3'')])"
proof -
  let ?front = "\<lparr>protocol = ''https'', hostname = ''twenty.com'', port = [], pathname = ''/'',
                 searchParams = []\<rparr>"
  let ?url = "\<lparr>protocol = ''https'', hostname = ''crm.globex.com'', port = [],
               pathname = ''/'', searchParams = []\<rparr>"
  let ?al = "Alist [(''emailVerificationToken'', Some (StringValue ''tok'')),
                    (''attempt'', Some (NumberValue (3::int))), (''email'', None)]"
  let ?entries = "[(''emailVerificationToken'', Some (StringValue ''tok'')),
                   (''attempt'', Some (NumberValue (3::int))), (''email'', None)]"
  let ?start = "set_pathname simple_platform ?url ''verify-email''"
  have host: "''crm.globex.com'' =
                (if isCustomDomainEnabled ws_new \<and> customDomain ws_new \<noteq> None
                    \<and> customDomain ws_new \<noteq> Some []
                 then the (customDomain ws_new) else subdomain ws_new @ ''.'' @ hostname ?front)"
    by (simp add: ws_new_def)
  have start: "?start =
                 (if truthy_string (Some ''verify-email'')
                  then set_pathname simple_platform ?url (the (Some ''verify-email''))
                  else ?url)"
    by simp
  have entries: "?entries = (case Some ?al of None \<Rightarrow> [] | Some al \<Rightarrow> DAList.impl_of al)"
    by (simp add: verify_email_entries)
  note inst = buildWorkspaceURL_custom_or_subdomain
                [of simple_platform env_memory ws_new "Some ''verify-email''" "Some ?al",
                 THEN conjunct2, rule_format, OF conjI [OF front_memory conjI [OF host refl]],
                 THEN conjunct2, THEN conjunct2, rule_format,
                 OF conjI [OF custom_url_parsed conjI [OF start entries]]]
  from inst obtain res where
    run: "buildWorkspaceURL simple_platform env_memory ws_new (Some ''verify-email'')
            (Some ?al) = Inr res"
    and h: "hostname res = hostname ?start"
    and p: "pathname res = pathname ?start"
    and appended: "fst ` set ?entries \<inter> fst ` set (searchParams ?start) = {} \<longrightarrow>
                     searchParams res =
                       searchParams ?start @ spec_defined_entries simple_platform ?entries"
    by blast
  have st: "?start = \<lparr>protocol = ''https'', hostname = ''crm.globex.com'', port = [],
                       pathname = ''/verify-email'', searchParams = []\<rparr>"
    by (simp add: simple_platform_def simple_set_pathname_def)
  have three: "string_of_int 3 = ''3''" by code_simp
  from h st have "hostname res = ''crm.globex.com''" by simp
  moreover from p st have "pathname res = ''/verify-email''" by simp
  moreover from appended st three
  have "searchParams res = [(''emailVerificationToken'', ''tok''), (''attempt'', ''3'')]"
    by (simp add: simple_platform_def)
  ultimately show ?thesis using run front_memory custom_url_parsed by blast
qed

text \<open>An enabled workspace whose custom domain is empty, on the small platform: the
  subdomain URL is used.\<close>

lemma subdomain_url_parsed:
  "newURL simple_platform
     (toString simple_platform
        (set_hostname simple_platform
           \<lparr>protocol = ''https'', hostname = ''twenty.com'', port = [], pathname = ''/'',
            searchParams = []\<rparr> ''globex.twenty.com'')) =
   Some \<lparr>protocol = ''https'', hostname = ''globex.twenty.com'', port = [], pathname = ''/'',
         searchParams = []\<rparr>"
  by (simp add: simple_platform_def simple_set_hostname_def simple_toString_def
        simple_newURL_def default_port_def ascii_lower_def is_digit_def)

lemma buildWorkspaceURL_empty_custom_domain:
  "buildWorkspaceURL simple_platform env_memory (ws_new \<lparr>customDomain := Some []\<rparr>) None None =
     Inr \<lparr>protocol = ''https'', hostname = ''globex.twenty.com'', port = [], pathname = ''/'',
          searchParams = []\<rparr>"
proof -
  have host: "''globex.twenty.com'' =
     (if isCustomDomainEnabled (ws_new \<lparr>customDomain := Some []\<rparr>)
           \<and> customDomain (ws_new \<lparr>customDomain := Some []\<rparr>) \<noteq> None
           \<and> customDomain (ws_new \<lparr>customDomain := Some []\<rparr>) \<noteq> Some []
      then the (customDomain (ws_new \<lparr>customDomain := Some []\<rparr>))
      else subdomain (ws_new \<lparr>customDomain := Some []\<rparr>) @ ''.''
             @ hostname \<lparr>protocol = ''https'', hostname = ''twenty.com'', port = [],
                          pathname = ''/'', searchParams = []\<rparr>)"
    by (simp add: ws_new_def)
  show ?thesis
    using buildWorkspaceURL_text [OF front_memory host refl, of None None]
    by (simp add: subdomain_url_parsed)
qed

section \<open>Properties of the webhook handler\<close>

lemma save_existing:
  "w \<in> set repo \<Longrightarrow> workspace_id w' = workspace_id w \<Longrightarrow>
   save repo w' = map (\<lambda>x. if workspace_id x = workspace_id w' then w' else x) repo"
  by (auto simp: save_def)

lemma findOneBy_customDomain_Some:
  "findOneBy_customDomain repo h = Some t \<Longrightarrow> t \<in> set repo \<and> customDomain t = Some h"
  by (auto simp: findOneBy_customDomain_def find_Some_iff)

lemma findOneBy_customDomain_None:
  "findOneBy_customDomain repo h = None \<longleftrightarrow> (\<forall>x \<in> set repo. customDomain x \<noteq> Some h)"
  by (auto simp: findOneBy_customDomain_def find_None_iff)

text \<open>
  C2. For an authenticated webhook whose hostname is the custom domain of a stored tenant
  and whose validation details are available, a store write occurs exactly when
  \<open>working\<close> differs from the tenant's stored \<open>isCustomDomainEnabled\<close>; the record written
  is the tenant with \<open>customDomain = hostname\<close> and \<open>isCustomDomainEnabled = working\<close>; when
  \<open>working\<close> equals the stored flag nothing is written and the store is unchanged. The
  response is 200 either way.
\<close>

theorem customHostnameWebhooks_writes_iff_changed:
  assumes "cf_webhook_auth req = Some secret"
      and "payload_hostname req = Some h"
      and "findOneBy_customDomain repo h = Some tenant"
      and "getCustomDomainDetails h = Inr (Some details)"
      and "out = customHostnameWebhooks secret getCustomDomainDetails repo req"
      and "working = isCustomDomainWorking details"
      and "updated = tenant \<lparr>customDomain := Some h, isCustomDomainEnabled := working\<rparr>"
  shows "((\<exists>c \<in> set (calls out). is_write c) \<longleftrightarrow> working \<noteq> isCustomDomainEnabled tenant)
       \<and> (working \<noteq> isCustomDomainEnabled tenant \<longrightarrow>
            filter is_write (calls out) = [Save updated]
            \<and> repository_after out = save repo updated)
       \<and> (working = isCustomDomainEnabled tenant \<longrightarrow>
            filter is_write (calls out) = [] \<and> repository_after out = repo)
       \<and> response out = Status_200"
  using assms by (simp add: customHostnameWebhooks_def is_write_def Let_def)

theorem customHostnameWebhooks_writes_iff_changed_witness:
  "cf_webhook_auth (request_for ''correct-secret'' (Some ''example.com'')) = Some ''correct-secret''
   \<and> payload_hostname (request_for ''correct-secret'' (Some ''example.com'')) = Some ''example.com''
   \<and> findOneBy_customDomain [ws_example] ''example.com'' = Some ws_example
   \<and> isCustomDomainWorking records_success \<noteq> isCustomDomainEnabled ws_example
   \<and> filter is_write
        (calls (customHostnameWebhooks ''correct-secret'' (\<lambda>h. Inr (Some records_success))
                  [ws_example] (request_for ''correct-secret'' (Some ''example.com'')))) =
       [Save (ws_example \<lparr>customDomain := Some ''example.com'', isCustomDomainEnabled := True\<rparr>)]
   \<and> response (customHostnameWebhooks ''correct-secret'' (\<lambda>h. Inr (Some records_success))
                  [ws_example] (request_for ''correct-secret'' (Some ''example.com''))) =
       Status_200"
proof -
  have auth: "cf_webhook_auth (request_for ''correct-secret'' (Some ''example.com'')) =
                Some ''correct-secret''"
    and host: "payload_hostname (request_for ''correct-secret'' (Some ''example.com'')) =
                Some ''example.com''"
    by (simp_all add: request_for_def)
  have found: "findOneBy_customDomain [ws_example] ''example.com'' = Some ws_example"
    by (simp add: findOneBy_customDomain_def ws_example_def)
  have details: "(\<lambda>h. Inr (Some records_success) :: unit + CustomDomainValidRecords option)
                   ''example.com'' = Inr (Some records_success)"
    by simp
  have working: "isCustomDomainWorking records_success = True"
    by (simp add: isCustomDomainWorking_def records_success_def)
  have changed: "isCustomDomainWorking records_success \<noteq> isCustomDomainEnabled ws_example"
    by (simp add: working ws_example_def)
  from customHostnameWebhooks_writes_iff_changed [OF auth host found details refl refl refl]
       changed working
  have "filter is_write
          (calls (customHostnameWebhooks ''correct-secret'' (\<lambda>h. Inr (Some records_success))
                    [ws_example] (request_for ''correct-secret'' (Some ''example.com'')))) =
        [Save (ws_example \<lparr>customDomain := Some ''example.com'',
                           isCustomDomainEnabled := True\<rparr>)]
        \<and> response (customHostnameWebhooks ''correct-secret'' (\<lambda>h. Inr (Some records_success))
                  [ws_example] (request_for ''correct-secret'' (Some ''example.com''))) =
          Status_200"
    by simp
  with auth host found changed show ?thesis by simp
qed

lemma cleared_repository_unclaimed:
  assumes "tenant \<in> set repo"
      and "\<forall>x \<in> set repo. customDomain x = Some h \<longrightarrow> workspace_id x = workspace_id tenant"
  shows "\<forall>x \<in> set (save repo (tenant \<lparr>customDomain := None, isCustomDomainEnabled := False\<rparr>)).
           customDomain x \<noteq> Some h"
proof -
  let ?cleared = "tenant \<lparr>customDomain := None, isCustomDomainEnabled := False\<rparr>"
  have "save repo ?cleared =
          map (\<lambda>x. if workspace_id x = workspace_id ?cleared then ?cleared else x) repo"
    using assms(1) by (rule save_existing) simp
  then show ?thesis using assms(2) by auto
qed

text \<open>
  C3. For an authenticated webhook whose hostname is the custom domain of a stored tenant,
  and of no other, and for which the validation collaborator returns none, the handler
  writes that tenant with \<open>customDomain = null\<close> and \<open>isCustomDomainEnabled = false\<close>, and
  responds 200. After it no tenant claims the hostname, and a repeat delivery, whatever
  the collaborator returns then, writes nothing and responds 200.
\<close>

theorem customHostnameWebhooks_clears_once:
  assumes "cf_webhook_auth req = Some secret"
      and "payload_hostname req = Some h"
      and "findOneBy_customDomain repo h = Some tenant"
      and "\<forall>x \<in> set repo. customDomain x = Some h \<longrightarrow> workspace_id x = workspace_id tenant"
      and "getCustomDomainDetails h = Inr None"
      and "out = customHostnameWebhooks secret getCustomDomainDetails repo req"
      and "again = customHostnameWebhooks secret getCustomDomainDetails' (repository_after out) req"
      and "cleared = tenant \<lparr>customDomain := None, isCustomDomainEnabled := False\<rparr>"
  shows "filter is_write (calls out) = [Save cleared]
       \<and> repository_after out = save repo cleared
       \<and> response out = Status_200
       \<and> (\<forall>x \<in> set (repository_after out). customDomain x \<noteq> Some h)
       \<and> filter is_write (calls again) = []
       \<and> repository_after again = repository_after out
       \<and> response again = Status_200"
proof -
  from assms(3) have tenant: "tenant \<in> set repo" "customDomain tenant = Some h"
    using findOneBy_customDomain_Some by blast+
  have first: "out = \<lparr>response = Status_200,
                      calls = [FindOneBy_customDomain h, GetCustomDomainDetails h, Save cleared],
                      repository_after = save repo cleared\<rparr>"
    using assms(1,2,3,5,6,8) tenant(2) by (simp add: customHostnameWebhooks_def Let_def)
  have unclaimed: "\<forall>x \<in> set (save repo cleared). customDomain x \<noteq> Some h"
    unfolding assms(8) by (rule cleared_repository_unclaimed [OF tenant(1) assms(4)])
  then have "findOneBy_customDomain (save repo cleared) h = None"
    by (simp add: findOneBy_customDomain_None)
  then have second: "again = \<lparr>response = Status_200, calls = [FindOneBy_customDomain h],
                              repository_after = save repo cleared\<rparr>"
    using assms(1,2,7) first by (simp add: customHostnameWebhooks_def)
  from first second unclaimed show ?thesis by (simp add: is_write_def)
qed

theorem customHostnameWebhooks_clears_once_witness:
  "cf_webhook_auth (request_for ''correct-secret'' (Some ''notfound.com'')) = Some ''correct-secret''
   \<and> payload_hostname (request_for ''correct-secret'' (Some ''notfound.com'')) = Some ''notfound.com''
   \<and> findOneBy_customDomain [ws_example, ws_notfound] ''notfound.com'' = Some ws_notfound
   \<and> customDomain ws_example \<noteq> Some ''notfound.com''
   \<and> filter is_write
        (calls (customHostnameWebhooks ''correct-secret'' (\<lambda>h. Inr None)
                  [ws_example, ws_notfound]
                  (request_for ''correct-secret'' (Some ''notfound.com'')))) =
       [Save (ws_notfound \<lparr>customDomain := None, isCustomDomainEnabled := False\<rparr>)]
   \<and> filter is_write
        (calls (customHostnameWebhooks ''correct-secret'' (\<lambda>h. Inr None)
                  (repository_after
                     (customHostnameWebhooks ''correct-secret'' (\<lambda>h. Inr None)
                        [ws_example, ws_notfound]
                        (request_for ''correct-secret'' (Some ''notfound.com''))))
                  (request_for ''correct-secret'' (Some ''notfound.com'')))) = []"
proof -
  have auth: "cf_webhook_auth (request_for ''correct-secret'' (Some ''notfound.com'')) =
                Some ''correct-secret''"
    and host: "payload_hostname (request_for ''correct-secret'' (Some ''notfound.com'')) =
                Some ''notfound.com''"
    by (simp_all add: request_for_def)
  have found: "findOneBy_customDomain [ws_example, ws_notfound] ''notfound.com'' =
                 Some ws_notfound"
    by (simp add: findOneBy_customDomain_def ws_example_def ws_notfound_def)
  have only: "\<forall>x \<in> set [ws_example, ws_notfound].
                customDomain x = Some ''notfound.com'' \<longrightarrow> workspace_id x = workspace_id ws_notfound"
    by (simp add: ws_example_def ws_notfound_def)
  have none: "(\<lambda>h. Inr None :: unit + CustomDomainValidRecords option) ''notfound.com'' = Inr None"
    by simp
  note inst = customHostnameWebhooks_clears_once
                [OF auth host found only none refl refl refl, of "\<lambda>h. Inr None"]
  note first = inst [THEN conjunct1]
  note second = inst [THEN conjunct2, THEN conjunct2, THEN conjunct2, THEN conjunct2,
                      THEN conjunct1]
  have other: "customDomain ws_example \<noteq> Some ''notfound.com''"
    by (simp add: ws_example_def)
  show ?thesis
    by (intro conjI) (rule auth host found other first second)+
qed

text \<open>
  C4. A request whose \<open>cf-webhook-auth\<close> header is absent or differs from the configured
  secret is answered with the authentication-failure status; the handler makes no
  tenant lookup, no validation lookup and no write, and the store is unchanged.
\<close>

theorem customHostnameWebhooks_rejects_wrong_secret:
  assumes "cf_webhook_auth req \<noteq> Some secret"
  shows "customHostnameWebhooks secret getCustomDomainDetails repo req =
           \<lparr>response = Authentication_Failure, calls = [], repository_after = repo\<rparr>"
  using assms by (simp add: customHostnameWebhooks_def)

theorem customHostnameWebhooks_rejects_wrong_secret_witness:
  "cf_webhook_auth (request_for ''wrong-secret'' (Some ''example.com'')) \<noteq> Some ''correct-secret''
   \<and> customHostnameWebhooks ''correct-secret'' (\<lambda>h. Inr (Some records_success)) [ws_example]
       (request_for ''wrong-secret'' (Some ''example.com'')) =
     \<lparr>response = Authentication_Failure, calls = [], repository_after = [ws_example]\<rparr>"
proof -
  have wrong: "cf_webhook_auth (request_for ''wrong-secret'' (Some ''example.com'')) \<noteq>
                 Some ''correct-secret''"
    by (simp add: request_for_def)
  from customHostnameWebhooks_rejects_wrong_secret [OF wrong] wrong show ?thesis by blast
qed

text \<open>
  C6. An authenticated webhook whose payload has no hostname is answered with status 200;
  nothing is written and the store is unchanged.
\<close>

theorem customHostnameWebhooks_missing_hostname:
  assumes "cf_webhook_auth req = Some secret" and "payload_hostname req = None"
      and "out = customHostnameWebhooks secret getCustomDomainDetails repo req"
  shows "response out = Status_200
       \<and> filter is_write (calls out) = []
       \<and> repository_after out = repo"
  using assms by (simp add: customHostnameWebhooks_def)

theorem customHostnameWebhooks_missing_hostname_witness:
  "cf_webhook_auth (request_for ''correct-secret'' None) = Some ''correct-secret''
   \<and> payload_hostname (request_for ''correct-secret'' None) = None
   \<and> response (customHostnameWebhooks ''correct-secret'' (\<lambda>h. Inr None) [ws_example]
                 (request_for ''correct-secret'' None)) = Status_200
   \<and> repository_after (customHostnameWebhooks ''correct-secret'' (\<lambda>h. Inr None) [ws_example]
                 (request_for ''correct-secret'' None)) = [ws_example]"
proof -
  have auth: "cf_webhook_auth (request_for ''correct-secret'' None) = Some ''correct-secret''"
    and host: "payload_hostname (request_for ''correct-secret'' None) = None"
    by (simp_all add: request_for_def)
  from customHostnameWebhooks_missing_hostname [OF auth host refl] auth host
  show ?thesis by blast
qed

text \<open>
  The controller's fourth test, on the model: a tenant that is already enabled, and
  records that all succeeded, give a lookup of the tenant and of the records, and no
  write.
\<close>

lemma customHostnameWebhooks_nothing_changes:
  "customHostnameWebhooks ''correct-secret'' (\<lambda>h. Inr (Some records_success)) [ws_notfound]
     (request_for ''correct-secret'' (Some ''notfound.com'')) =
   \<lparr>response = Status_200,
    calls = [FindOneBy_customDomain ''notfound.com'', GetCustomDomainDetails ''notfound.com''],
    repository_after = [ws_notfound]\<rparr>"
  by (simp add: customHostnameWebhooks_def request_for_def findOneBy_customDomain_def
        ws_notfound_def isCustomDomainWorking_def records_success_def)

end
